theory Spec2Isabelle
  imports Complex_Main "HOL-Library.Word" "HOL-Library.Signed_Division"
begin

section \<open>The server entry point of Maker (go/server/servermain.go)\<close>

text \<open>
  The file \<^verbatim>\<open>servermain.go\<close> holds \<^verbatim>\<open>ServerMain\<close>, which starts the
  services of the program, and \<^verbatim>\<open>initBinanceExchangeInfoService\<close>. \<^verbatim>\<open>ServerMain\<close>
  starts three endless loops as goroutines: the clock check, the dispatch of the
  events of the account user-data stream, and the refresh of the exchange info.

  Each sequential piece of code is embedded as a function that returns the list of the
  calls it makes on its collaborators, in program order, next to the state it leaves.
  An endless loop is a function of the list of inputs the loop receives: what it
  has done after that many rounds.
\<close>

subsection \<open>Events of the account user-data stream\<close>

text \<open>
  The event type of package \<^verbatim>\<open>binanceex\<close>. The source names one value,
  \<^verbatim>\<open>EventTypeExecutionReport\<close>; every other value is \<open>EventTypeOther\<close> with its name.
\<close>

datatype EventType = EventTypeExecutionReport | EventTypeOther string

datatype OrderStatus =
  StatusNew | StatusPartiallyFilled | StatusFilled | StatusCanceled | StatusRejected
  | StatusExpired

text \<open>
  Modelled from the spec: the decoded execution report carried by an event, whose type
  is declared in another package. Section 3: exchange order ID, fill delta, resulting
  order status. \<open>CumulativeQty\<close> and \<open>AveragePrice\<close> are the fill state of the order
  after the report.
\<close>

record ExecutionReport =
  OrderId :: int
  FillDelta :: rat
  CumulativeQty :: rat
  AveragePrice :: rat
  CurrentOrderStatus :: OrderStatus

text \<open>
  The event received from \<^verbatim>\<open>userStreamChannel\<close>. The dispatch loop reads
  \<^verbatim>\<open>event.EventType\<close>, \<^verbatim>\<open>event.EventTime\<close> and \<^verbatim>\<open>event.Raw\<close>; \<open>Report\<close> is
  the decoded report that the trade service reads. The channel is not closed by this file.
\<close>

record UserStreamEvent =
  EventType :: EventType
  EventTime :: int
  Raw :: string
  Report :: ExecutionReport

subsection \<open>Calls on collaborators\<close>

text \<open>
  What the code of \<^verbatim>\<open>servermain.go\<close> does to the rest of the program, one
  constructor for each call, in the order of first use. \<open>Fatalf\<close> is \<^verbatim>\<open>log.Fatalf\<close>,
  which logs the message and ends the process: nothing follows it in a trace. \<open>Go\<close>
  starts a goroutine. Log calls carry their format string, and the two fields where the
  source gives fields; \<open>SleepMinutes n\<close> is \<^verbatim>\<open>time.Sleep(n * time.Minute)\<close>.
\<close>

datatype goroutine =
  ExchangeInfoRefresh | UserDataStreamRun | ClockCheck | EventDispatch | HttpListen
  | BrowserStart

datatype ClientNoticeLevel = ClientNoticeLevelWarning | ClientNoticeLevelOther string

datatype action =
    LogInfof string
  | LogInfo string
  | LogPrintf string
  | LogSetLevelDebug
  | OsStat string
  | OsMkdir string
  | Fatalf string
  | LogAddFileOutputHook string
  | GenCertMain string
  | NewXTradeStreamManager
  | DbOpen string
  | NewTradeService
  | RestoreTrades
  | CallNewExchangeInfoService
  | CallUpdate
  | LogErrorf string string
  | Go goroutine
  | NewBinancePriceService
  | NewBinanceUserDataStream
  | Subscribe
  | NewClientNoticeService
  | NewRouter
  | NewAuthenticator string
  | RegisterRoutes
  | WaitGroupWait
  | NewRestClient
  | GetTime
  | SleepMinutes nat
  | LogFieldsWarnf string int int
  | LogFieldsInfof string int int
  | Broadcast ClientNoticeLevel string
  | LogPrintln string
  | CallDbSaveBinanceRawExecutionReport int string
  | CallOnExecutionReport UserStreamEvent

fun isFatalf :: "action \<Rightarrow> bool" where
  "isFatalf (Fatalf msg) = True"
| "isFatalf _ = False"

fun isDbSave :: "action \<Rightarrow> bool" where
  "isDbSave (CallDbSaveBinanceRawExecutionReport t r) = True"
| "isDbSave _ = False"

fun isLogPrintln :: "action \<Rightarrow> bool" where
  "isLogPrintln (LogPrintln e) = True"
| "isLogPrintln _ = False"

fun isBroadcast :: "action \<Rightarrow> bool" where
  "isBroadcast (Broadcast level msg) = True"
| "isBroadcast _ = False"

subsection \<open>The dispatch loop of the user-data stream (lines 161 to 174)\<close>

text \<open>
  \<^verbatim>\<open>
  go func() {
      for {
          select {
          case event := <-userStreamChannel:
              switch event.EventType {
              case binanceex.EventTypeExecutionReport:
                  if err := db.DbSaveBinanceRawExecutionReport(event.EventTime, event.Raw); err != nil {
                      log.Println(err)
                  }
                  tradeService.OnExecutionReport(event)
              }
          }
      }
  }()
  \<close>
  \<^verbatim>\<open>db.DbSaveBinanceRawExecutionReport\<close> and \<^verbatim>\<open>tradeService.OnExecutionReport\<close> belong to
  other packages. They are parameters here: \<open>save\<close> takes the state of the program
  (store and trade service), the event time and the raw payload, and returns the
  error, if any, with the new state; \<open>handler\<close> takes the state and the event and
  returns the new state.
\<close>

definition isExecutionReport :: "UserStreamEvent \<Rightarrow> bool" where
  "isExecutionReport event = (EventType event = EventTypeExecutionReport)"

definition dispatchEvent ::
  "('s \<Rightarrow> int \<Rightarrow> string \<Rightarrow> string option \<times> 's) \<Rightarrow> ('s \<Rightarrow> UserStreamEvent \<Rightarrow> 's)
    \<Rightarrow> 's \<Rightarrow> UserStreamEvent \<Rightarrow> 's \<times> action list" where
  "dispatchEvent save handler s event =
     (case EventType event of
        EventTypeExecutionReport \<Rightarrow>
          (case save s (EventTime event) (Raw event) of
             (err, s1) \<Rightarrow>
               (handler s1 event,
                CallDbSaveBinanceRawExecutionReport (EventTime event) (Raw event)
                  # (case err of Some e \<Rightarrow> [LogPrintln e] | None \<Rightarrow> [])
                  @ [CallOnExecutionReport event]))
      | EventTypeOther other \<Rightarrow> (s, []))"

text \<open>The loop, after it has received the events of the list from the channel.\<close>

fun dispatchLoop ::
  "('s \<Rightarrow> int \<Rightarrow> string \<Rightarrow> string option \<times> 's) \<Rightarrow> ('s \<Rightarrow> UserStreamEvent \<Rightarrow> 's)
    \<Rightarrow> 's \<Rightarrow> UserStreamEvent list \<Rightarrow> 's \<times> action list" where
  "dispatchLoop save handler s [] = (s, [])"
| "dispatchLoop save handler s (event # events) =
     (case dispatchEvent save handler s event of
        (s1, calls1) \<Rightarrow>
          (case dispatchLoop save handler s1 events of
             (s2, calls2) \<Rightarrow> (s2, calls1 @ calls2)))"

text \<open>
  In a trace, every call of the handler comes after a call of the store with the time and
  payload of the same event, with nothing but the logging of the store's error between.
\<close>

definition savedThenApplied :: "action list \<Rightarrow> bool" where
  "savedThenApplied calls =
     (\<forall>j<length calls. \<forall>event. calls ! j = CallOnExecutionReport event \<longrightarrow>
        (\<exists>i<j. calls ! i = CallDbSaveBinanceRawExecutionReport (EventTime event) (Raw event)
           \<and> (\<forall>k. i < k \<and> k < j \<longrightarrow> isLogPrintln (calls ! k))))"

subsection \<open>The trade service's intake of execution reports\<close>

text \<open>
  Modelled from the spec: the states of a Trade, section 4.1 (package \<^verbatim>\<open>tradeservice\<close>
  is not among the sources).
\<close>

datatype TradeState =
  EntryPending | Open | ExitPending | Closed | Cancelled | Archived | Abandoned

text \<open>
  Modelled from the spec: an order reference of a trade, section 3: exchange order ID,
  requested quantity and price, filled quantity, average fill price.
\<close>

record OrderRef =
  ExchangeOrderId :: int
  RequestedQty :: rat
  RequestedPrice :: rat
  FilledQty :: rat
  AvgFillPrice :: rat

text \<open>
  Modelled from the spec: the Trade of section 3, with its identity, its state, the entry
  order and the exit order if one is placed.
\<close>

record Trade =
  TradeId :: nat
  Symbol :: string
  State :: TradeState
  Entry :: OrderRef
  Exit :: "OrderRef option"

text \<open>
  Modelled from the spec: the states in which no further mutation is accepted (section 3
  names \<open>Closed\<close>, \<open>Archived\<close> and \<open>Abandoned\<close>, section 4.1 names \<open>Cancelled\<close>).
\<close>

definition isTerminal :: "TradeState \<Rightarrow> bool" where
  "isTerminal st = (st = Closed \<or> st = Cancelled \<or> st = Archived \<or> st = Abandoned)"

text \<open>
  Modelled from the spec: the fill state of the report is newer than the one the order
  records (section 4.1), read as a greater cumulative filled quantity.
\<close>

definition fillIsNewer :: "ExecutionReport \<Rightarrow> OrderRef \<Rightarrow> bool" where
  "fillIsNewer r ord = (FilledQty ord < CumulativeQty r)"

text \<open>Modelled from the spec: "updates fill quantities/avg price" (section 4.1).\<close>

definition applyFill :: "ExecutionReport \<Rightarrow> OrderRef \<Rightarrow> OrderRef" where
  "applyFill r ord = ord\<lparr>FilledQty := CumulativeQty r, AvgFillPrice := AveragePrice r\<rparr>"

text \<open>Modelled from the spec: the order "becomes fully filled" (section 4.1).\<close>

definition fullyFilled :: "OrderRef \<Rightarrow> bool" where
  "fullyFilled ord = (RequestedQty ord \<le> FilledQty ord)"

text \<open>
  Modelled from the spec: the Trade is located by exchange order ID (section 4.1); the ID
  is the one of its entry order or of its exit order.
\<close>

definition ownsOrder :: "Trade \<Rightarrow> int \<Rightarrow> bool" where
  "ownsOrder t oid =
     (ExchangeOrderId (Entry t) = oid
      \<or> (case Exit t of Some x \<Rightarrow> ExchangeOrderId x = oid | None \<Rightarrow> False))"

text \<open>Modelled from the spec: the orders a Trade records (section 3).\<close>

definition ordersOf :: "Trade \<Rightarrow> OrderRef list" where
  "ordersOf t = Entry t # (case Exit t of Some x \<Rightarrow> [x] | None \<Rightarrow> [])"

text \<open>
  Modelled from the spec: the effect of a report on the Trade that owns its order
  (section 4.1): nothing in a terminal state and nothing when the fill state is not newer;
  else the fill is recorded, and the full fill of the entry order takes \<open>EntryPending\<close>
  to \<open>Open\<close>, the full fill of the exit order takes \<open>ExitPending\<close> to \<open>Closed\<close>.
\<close>

definition applyReport :: "ExecutionReport \<Rightarrow> Trade \<Rightarrow> Trade" where
  "applyReport r t =
     (if isTerminal (State t) then t
      else if ExchangeOrderId (Entry t) = OrderId r then
        (if fillIsNewer r (Entry t) then
           (let e = applyFill r (Entry t)
            in t\<lparr>State := (if State t = EntryPending \<and> fullyFilled e then Open else State t),
                 Entry := e\<rparr>)
         else t)
      else
        (case Exit t of
           None \<Rightarrow> t
         | Some x \<Rightarrow>
             (if ExchangeOrderId x = OrderId r \<and> fillIsNewer r x then
                (let x' = applyFill r x
                 in t\<lparr>State := (if State t = ExitPending \<and> fullyFilled x' then Closed
                                 else State t),
                      Exit := Some x'\<rparr>)
              else t)))"

text \<open>
  Modelled from the spec: \<^verbatim>\<open>TradeService.OnExecutionReport\<close> of package
  \<^verbatim>\<open>tradeservice\<close>, which is not among the sources (only its call in the dispatch loop
  is). Section 4.1: it locates the Trade by exchange order ID; if none is found, the event
  has no further effect; if found, it updates fill quantities and average price; if the
  filled order is the entry and becomes fully filled, \<open>EntryPending\<close> becomes \<open>Open\<close>; if
  it is the exit order and becomes fully filled, \<open>ExitPending\<close> becomes \<open>Closed\<close>; a
  report whose fill state is not newer than the Trade's recorded state is a no-op.
  Section 3: no further mutation is accepted once a terminal state is entered.

  The fill state of a report is read as the order's cumulative filled quantity and average
  price after the report; it is newer than the recorded one when its cumulative quantity
  is greater. The state of the service is its list of trades. The raw report is
  persisted by the caller, \<open>dispatchEvent\<close>, as in the source.
\<close>

fun OnExecutionReport :: "Trade list \<Rightarrow> UserStreamEvent \<Rightarrow> Trade list" where
  "OnExecutionReport [] event = []"
| "OnExecutionReport (t # ts) event =
     (if ownsOrder t (OrderId (Report event)) then applyReport (Report event) t # ts
      else t # OnExecutionReport ts event)"

subsection \<open>The exchange info service (lines 54 to 68)\<close>

text \<open>
  Modelled from the spec: the constraints of one symbol (section 2): price step, quantity
  step, minimum notional.
\<close>

record SymbolInfo =
  SymbolName :: string
  PriceStep :: rat
  QuantityStep :: rat
  MinNotional :: rat

text \<open>
  Modelled from the spec: the service of package \<^verbatim>\<open>binanceex\<close> holds the snapshot
  (section 2), none before the first successful update.
\<close>

record ExchangeInfoService =
  Snapshot :: "SymbolInfo list option"

text \<open>Modelled from the spec: \<^verbatim>\<open>binanceex.NewExchangeInfoService\<close>, a service with no snapshot.\<close>

definition NewExchangeInfoService :: ExchangeInfoService where
  "NewExchangeInfoService = \<lparr>Snapshot = None\<rparr>"

text \<open>
  Modelled from the spec: \<^verbatim>\<open>ExchangeInfoService.Update\<close> of package \<^verbatim>\<open>binanceex\<close>, which
  is not among the sources. Section 2: the cache is a periodically refreshed snapshot,
  replaced atomically. Section 4.4: on refresh failure, it retains the previous snapshot.
  The second argument is what the request to the exchange gave: an error or the new
  snapshot. The result is the error returned, if any, and the service after the call.
\<close>

definition Update ::
  "ExchangeInfoService \<Rightarrow> string + SymbolInfo list \<Rightarrow> string option \<times> ExchangeInfoService" where
  "Update svc fetched =
     (case fetched of
        Inl err \<Rightarrow> (Some err, svc)
      | Inr info \<Rightarrow> (None, svc\<lparr>Snapshot := Some info\<rparr>))"

text \<open>
  \<^verbatim>\<open>
  func initBinanceExchangeInfoService() *binanceex.ExchangeInfoService {
      exchangeInfoService := binanceex.NewExchangeInfoService()
      if err := exchangeInfoService.Update(); err != nil {
          log.WithError(err).Errorf("Binance exchange info server failed to update")
      }
      go func() {
          for {
              time.Sleep(1 * time.Minute)
              if err := exchangeInfoService.Update(); err != nil {
                  log.WithError(err).Errorf("Binance exchange info server failed to update")
              }
          }
      }()
      return exchangeInfoService
  }
  \<close>
\<close>

definition updateOrLog ::
  "ExchangeInfoService \<Rightarrow> string + SymbolInfo list \<Rightarrow> ExchangeInfoService \<times> action list" where
  "updateOrLog svc fetched =
     (case Update svc fetched of
        (Some err, svc1) \<Rightarrow>
          (svc1, [CallUpdate, LogErrorf ''Binance exchange info server failed to update'' err])
      | (None, svc1) \<Rightarrow> (svc1, [CallUpdate]))"

definition initBinanceExchangeInfoService ::
  "string + SymbolInfo list \<Rightarrow> ExchangeInfoService \<times> action list" where
  "initBinanceExchangeInfoService fetched =
     (case updateOrLog NewExchangeInfoService fetched of
        (svc, calls) \<Rightarrow> (svc, CallNewExchangeInfoService # calls @ [Go ExchangeInfoRefresh]))"

text \<open>The goroutine's loop, after the rounds whose requests gave the results of the list.\<close>

fun exchangeInfoRefresh ::
  "ExchangeInfoService \<Rightarrow> (string + SymbolInfo list) list \<Rightarrow> ExchangeInfoService \<times> action list" where
  "exchangeInfoRefresh svc [] = (svc, [])"
| "exchangeInfoRefresh svc (fetched # rest) =
     (case updateOrLog svc fetched of
        (svc1, calls1) \<Rightarrow>
          (case exchangeInfoRefresh svc1 rest of
             (svc2, calls2) \<Rightarrow> (svc2, SleepMinutes 1 # calls1 @ calls2)))"

text \<open>The calls of one round of the refresh loop, as a function of the request's result.\<close>

definition refreshRound :: "string + SymbolInfo list \<Rightarrow> action list" where
  "refreshRound fetched =
     SleepMinutes 1 # CallUpdate
       # (case fetched of
            Inl err \<Rightarrow> [LogErrorf ''Binance exchange info server failed to update'' err]
          | Inr info \<Rightarrow> [])"

subsection \<open>The clock check (lines 130 to 159)\<close>

text \<open>
  \<^verbatim>\<open>
  go func() {
      for {
          client := binanceapi.NewRestClient()
          requestStart := time.Now()
          response, err := client.GetTime()
          if err != nil {
              log.WithError(err).Errorf("Failed to get from Binance API")
              time.Sleep(1 * time.Minute)
              continue
          }

          roundTripTime := time.Now().Sub(requestStart)
          now := time.Now().UnixNano() / int64(time.Millisecond)
          diff := math.Abs(float64(now - response.ServerTime))
          if diff > 999 {
              log.WithFields(...).Warnf("Time difference from Binance servers may be too large; order may fail")
              clientNoticeService.Broadcast(NewClientNotice(ClientNoticeLevelWarning,
                  "Time difference between Binance and Maker server too large, orders may fail."))
          } else {
              log.WithFields(...).Infof("Binance time check")
          }
          time.Sleep(1 * time.Minute)
      }
  }()
  \<close>
  What one round of the loop observes: the result of \<^verbatim>\<open>GetTime\<close> (the error, or
  \<^verbatim>\<open>response.ServerTime\<close>, an \<^verbatim>\<open>int64\<close>), the round trip time, and the
  reading \<^verbatim>\<open>time.Now().UnixNano()\<close>, an \<^verbatim>\<open>int64\<close>.
\<close>

record TimeCheck =
  GetTimeResult :: "string + 64 word"
  RoundTripTime :: int
  UnixNano :: "64 word"

text \<open>
  \<^verbatim>\<open>time.Now().UnixNano() / int64(time.Millisecond)\<close>: the division of \<^verbatim>\<open>int64\<close>
  truncates towards zero.
\<close>

definition milliseconds :: "64 word \<Rightarrow> 64 word" where
  "milliseconds nanos = word_of_int (sint nanos sdiv 1000000)"

text \<open>The number of binary digits of a natural number.\<close>

fun bitLength :: "nat \<Rightarrow> nat" where
  "bitLength n = (if n = 0 then 0 else Suc (bitLength (n div 2)))"

text \<open>
  The conversion \<^verbatim>\<open>float64(x)\<close> of an integer: the nearest number with a significand
  of 53 binary digits, ties to the even significand. The result is an integer again, so
  it is given as one. An \<^verbatim>\<open>int64\<close> is below the range where the exponent overflows.
\<close>

definition float64 :: "int \<Rightarrow> int" where
  "float64 x =
     (if \<bar>x\<bar> < 2 ^ 53 then x
      else
        (let e = bitLength (nat \<bar>x\<bar>) - 53;
             q = \<bar>x\<bar> div 2 ^ e;
             r = \<bar>x\<bar> mod 2 ^ e;
             q' = (if 2 ^ e < 2 * r \<or> (2 * r = 2 ^ e \<and> odd q) then q + 1 else q)
         in sgn x * (q' * 2 ^ e)))"

text \<open>\<^verbatim>\<open>math.Abs(float64(now - response.ServerTime))\<close>: the subtraction wraps around.\<close>

definition timeDifference :: "64 word \<Rightarrow> 64 word \<Rightarrow> int" where
  "timeDifference now serverTime = \<bar>float64 (sint (now - serverTime))\<bar>"

definition clockCheckRound :: "TimeCheck \<Rightarrow> action list" where
  "clockCheckRound c =
     [NewRestClient, GetTime] @
     (case GetTimeResult c of
        Inl err \<Rightarrow> [LogErrorf ''Failed to get from Binance API'' err, SleepMinutes 1]
      | Inr serverTime \<Rightarrow>
          (let diff = timeDifference (milliseconds (UnixNano c)) serverTime
           in (if 999 < diff then
                 [LogFieldsWarnf
                    ''Time difference from Binance servers may be too large; order may fail''
                    (RoundTripTime c) diff,
                  Broadcast ClientNoticeLevelWarning
                    ''Time difference between Binance and Maker server too large, orders may fail.'']
               else [LogFieldsInfof ''Binance time check'' (RoundTripTime c) diff])
              @ [SleepMinutes 1]))"

text \<open>The loop, after the rounds that observed the elements of the list.\<close>

fun clockCheck :: "TimeCheck list \<Rightarrow> action list" where
  "clockCheck [] = []"
| "clockCheck (c # cs) = clockCheckRound c @ clockCheck cs"

subsection \<open>ServerMain (lines 70 to 307)\<close>

record ServerFlags =
  Host :: string
  Port :: "16 word"
  ConfigFilename :: string
  NoLog :: bool
  OpenBrowser :: bool
  DataDirectory :: string
  TLS :: bool
  ItsAllMyFault :: bool
  EnableAuth :: bool

text \<open>
  What \<^verbatim>\<open>ServerMain\<close> finds outside the program: whether \<^verbatim>\<open>os.Stat\<close> finds the
  data directory, the error of \<^verbatim>\<open>os.Mkdir\<close> if any, whether \<^verbatim>\<open>os.Stat\<close> finds the
  certificate file, and the result of the first request for the exchange info.
\<close>

record Environment =
  DataDirectoryExists :: bool
  MkdirError :: "string option"
  PemExists :: bool
  FirstExchangeInfo :: "string + SymbolInfo list"

text \<open>
  \<^verbatim>\<open>
  if ServerFlags.Host != "127.0.0.1" {
      if !ServerFlags.EnableAuth {
          log.Fatalf("Authentication must be enabled to listen on anything other than 127.0.0.1")
      }
      if !ServerFlags.TLS {
          log.Fatalf("TLS must be enabled to list on anything other than 127.0.0.1")
      }
      if !ServerFlags.ItsAllMyFault {
          log.Fatalf("Secret command line argument for non 127.0.0.1 listen not set. See documentation.")
      }
  }
  \<close>
  The result is the message of the fatal log call, if one is made.
\<close>

definition listenGuard :: "ServerFlags \<Rightarrow> string option" where
  "listenGuard flags =
     (if Host flags \<noteq> ''127.0.0.1'' then
        (if \<not> EnableAuth flags then
           Some ''Authentication must be enabled to listen on anything other than 127.0.0.1''
         else if \<not> TLS flags then
           Some ''TLS must be enabled to list on anything other than 127.0.0.1''
         else if \<not> ItsAllMyFault flags then
           Some ''Secret command line argument for non 127.0.0.1 listen not set. See documentation.''
         else None)
      else None)"

text \<open>Lines 100 to 109: the certificate is generated when TLS is on and the file is missing.\<close>

definition tlsSetup :: "ServerFlags \<Rightarrow> Environment \<Rightarrow> action list" where
  "tlsSetup flags env =
     (if TLS flags then
        (let pemFilename = DataDirectory flags @ ''/maker.pem''
         in OsStat pemFilename # (if PemExists env then [] else [GenCertMain pemFilename]))
      else [])"

text \<open>Lines 111 to 174: the store, the services and the three loops.\<close>

definition startServices :: "ServerFlags \<Rightarrow> Environment \<Rightarrow> action list" where
  "startServices flags env =
     [NewXTradeStreamManager,
      DbOpen (DataDirectory flags),
      NewTradeService,
      RestoreTrades]
     @ snd (initBinanceExchangeInfoService (FirstExchangeInfo env))
     @ [NewBinancePriceService,
        NewBinanceUserDataStream,
        Subscribe,
        Go UserDataStreamRun,
        NewClientNoticeService,
        Go ClockCheck,
        Go EventDispatch]"

text \<open>Lines 176 to 306: the router, the listener, the browser, and the wait.\<close>

definition startServer :: "ServerFlags \<Rightarrow> action list" where
  "startServer flags =
     NewRouter
     # (if EnableAuth flags then [NewAuthenticator (ConfigFilename flags)] else [])
     @ [RegisterRoutes, LogPrintf ''Starting server on %s.'', Go HttpListen]
     @ (if OpenBrowser flags then [LogInfo ''Attempting to start browser.'', Go BrowserStart]
        else [])
     @ [WaitGroupWait]"

text \<open>
  \<^verbatim>\<open>ServerMain\<close>: the flags it leaves (it sets \<^verbatim>\<open>ServerFlags.ConfigFilename\<close>) and the
  calls it makes. \<open>join\<close> is \<^verbatim>\<open>path.Join\<close> of the standard library.
\<close>

definition ServerMain ::
  "(string \<Rightarrow> string \<Rightarrow> string) \<Rightarrow> ServerFlags \<Rightarrow> Environment \<Rightarrow> ServerFlags \<times> action list" where
  "ServerMain join flags env =
     (let dir = DataDirectory flags;
          start = [LogInfof ''This is Maker version %s (git revision %s)'', LogSetLevelDebug,
                   OsStat dir]
      in if \<not> DataDirectoryExists env \<and> MkdirError env \<noteq> None then
           (flags, start @ [OsMkdir dir, Fatalf ''Failed to create data directory %s: %v''])
         else
           (let made = (if DataDirectoryExists env then [] else [OsMkdir dir]);
                hook = (if NoLog flags then [] else [LogAddFileOutputHook (join dir ''maker.log'')]);
                flags1 = flags\<lparr>ConfigFilename := join dir ''maker.yaml''\<rparr>
            in (case listenGuard flags1 of
                  Some msg \<Rightarrow> (flags1, start @ made @ hook @ [Fatalf msg])
                | None \<Rightarrow>
                    (flags1,
                     start @ made @ hook @ tlsSetup flags1 env @ startServices flags1 env
                       @ startServer flags1))))"

text \<open>
  The first occurrence of \<open>b\<close> in a trace, if there is one, comes after an occurrence
  of \<open>a\<close>.
\<close>

definition precedes :: "action \<Rightarrow> action \<Rightarrow> action list \<Rightarrow> bool" where
  "precedes a b trace = (b \<in> set trace \<longrightarrow> a \<in> set (takeWhile (\<lambda>x. x \<noteq> b) trace))"

text \<open>The calls that create a service.\<close>

fun isServiceCreation :: "action \<Rightarrow> bool" where
  "isServiceCreation NewXTradeStreamManager = True"
| "isServiceCreation NewTradeService = True"
| "isServiceCreation CallNewExchangeInfoService = True"
| "isServiceCreation NewBinancePriceService = True"
| "isServiceCreation NewBinanceUserDataStream = True"
| "isServiceCreation NewClientNoticeService = True"
| "isServiceCreation _ = False"

fun isDbOpen :: "action \<Rightarrow> bool" where
  "isDbOpen (DbOpen dir) = True"
| "isDbOpen _ = False"

text \<open>
  The two ways \<^verbatim>\<open>ServerMain\<close> ends the process before it starts anything: the data
  directory is missing and cannot be made, or the listen guard refuses the flags.
\<close>

definition startupAborts :: "ServerFlags \<Rightarrow> Environment \<Rightarrow> bool" where
  "startupAborts flags env =
     ((\<not> DataDirectoryExists env \<and> MkdirError env \<noteq> None) \<or> listenGuard flags \<noteq> None)"

subsection \<open>Concrete inputs\<close>

text \<open>
  A store for the examples: the rows of raw reports, and the trades of the service.
  \<open>appendingSave\<close> appends the row; \<open>failingSave\<close> returns an error and stores nothing.
  \<open>tradeHandler\<close> hands the event to \<open>OnExecutionReport\<close>.
\<close>

type_synonym program = "(int \<times> string) list \<times> Trade list"

definition appendingSave :: "program \<Rightarrow> int \<Rightarrow> string \<Rightarrow> string option \<times> program" where
  "appendingSave s eventTime raw = (None, (fst s @ [(eventTime, raw)], snd s))"

definition failingSave :: "program \<Rightarrow> int \<Rightarrow> string \<Rightarrow> string option \<times> program" where
  "failingSave s eventTime raw = (Some ''database is locked'', s)"

definition tradeHandler :: "program \<Rightarrow> UserStreamEvent \<Rightarrow> program" where
  "tradeHandler s event = (fst s, OnExecutionReport (snd s) event)"

text \<open>A buy of 0.01 at 30000 that waits for its fill, and the report that fills it.\<close>

definition pendingTrade :: Trade where
  "pendingTrade =
     \<lparr>TradeId = 1, Symbol = ''BTCUSDT'', State = EntryPending,
      Entry = \<lparr>ExchangeOrderId = 42, RequestedQty = 1 / 100, RequestedPrice = 30000,
               FilledQty = 0, AvgFillPrice = 0\<rparr>,
      Exit = None\<rparr>"

definition openTrade :: Trade where
  "openTrade =
     \<lparr>TradeId = 1, Symbol = ''BTCUSDT'', State = Open,
      Entry = \<lparr>ExchangeOrderId = 42, RequestedQty = 1 / 100, RequestedPrice = 30000,
               FilledQty = 1 / 100, AvgFillPrice = 30000\<rparr>,
      Exit = None\<rparr>"

definition fillEvent :: UserStreamEvent where
  "fillEvent =
     \<lparr>EventType = EventTypeExecutionReport, EventTime = 1540000000000,
      Raw = ''executionReport 42 FILLED'',
      Report = \<lparr>OrderId = 42, FillDelta = 1 / 100, CumulativeQty = 1 / 100,
                AveragePrice = 30000, CurrentOrderStatus = StatusFilled\<rparr>\<rparr>"

definition balanceEvent :: UserStreamEvent where
  "balanceEvent =
     \<lparr>EventType = EventTypeOther ''outboundAccountInfo'', EventTime = 1540000000001,
      Raw = ''outboundAccountInfo'',
      Report = \<lparr>OrderId = 0, FillDelta = 0, CumulativeQty = 0, AveragePrice = 0,
                CurrentOrderStatus = StatusNew\<rparr>\<rparr>"

definition startProgram :: program where
  "startProgram = ([], [pendingTrade])"

text \<open>
  Three rounds of the clock check: the request fails; the local clock is 1000 ms ahead
  of the exchange; the local clock is 999 ms ahead.
\<close>

definition failedTimeCheck :: TimeCheck where
  "failedTimeCheck =
     \<lparr>GetTimeResult = Inl ''connection refused'', RoundTripTime = 0,
      UnixNano = 1540000000000000000\<rparr>"

definition skewedTimeCheck :: TimeCheck where
  "skewedTimeCheck =
     \<lparr>GetTimeResult = Inr 1540000000000, RoundTripTime = 120000000,
      UnixNano = 1540000001000000000\<rparr>"

definition punctualTimeCheck :: TimeCheck where
  "punctualTimeCheck =
     \<lparr>GetTimeResult = Inr 1540000000000, RoundTripTime = 120000000,
      UnixNano = 1540000000999999999\<rparr>"

text \<open>
  Flags and surroundings of a start: on the loopback address with nothing else set, and on
  all addresses with authentication and TLS but without the last flag.
\<close>

definition localFlags :: ServerFlags where
  "localFlags =
     \<lparr>Host = ''127.0.0.1'', Port = 6045, ConfigFilename = [], NoLog = False,
      OpenBrowser = False, DataDirectory = ''/home/maker/.makerdata'', TLS = False,
      ItsAllMyFault = False, EnableAuth = False\<rparr>"

definition publicFlags :: ServerFlags where
  "publicFlags =
     \<lparr>Host = ''0.0.0.0'', Port = 6045, ConfigFilename = [], NoLog = False,
      OpenBrowser = False, DataDirectory = ''/home/maker/.makerdata'', TLS = True,
      ItsAllMyFault = False, EnableAuth = True\<rparr>"

definition readyEnvironment :: Environment where
  "readyEnvironment =
     \<lparr>DataDirectoryExists = True, MkdirError = None, PemExists = True,
      FirstExchangeInfo = Inl ''connection refused''\<rparr>"

definition slashJoin :: "string \<Rightarrow> string \<Rightarrow> string" where
  "slashJoin dir name = dir @ ''/'' @ name"

section \<open>Properties of the dispatch loop\<close>

lemma dispatchLoop_Cons_calls:
  "snd (dispatchLoop save handler s (event # events)) =
     snd (dispatchEvent save handler s event)
       @ snd (dispatchLoop save handler (fst (dispatchEvent save handler s event)) events)"
  by (simp split: prod.splits)

lemma dispatchLoop_append:
  "dispatchLoop save handler s (xs @ ys) =
     (case dispatchLoop save handler s xs of
        (s1, c1) \<Rightarrow> (case dispatchLoop save handler s1 ys of (s2, c2) \<Rightarrow> (s2, c1 @ c2)))"
  by (induction xs arbitrary: s) (simp_all split: prod.splits)

lemma dispatchEvent_other:
  "\<not> isExecutionReport event \<Longrightarrow> dispatchEvent save handler s event = (s, [])"
  by (cases "EventType event") (simp_all add: dispatchEvent_def isExecutionReport_def)

lemma dispatchEvent_report:
  assumes "isExecutionReport event"
  shows "dispatchEvent save handler s event =
     (handler (snd (save s (EventTime event) (Raw event))) event,
      CallDbSaveBinanceRawExecutionReport (EventTime event) (Raw event)
        # (case fst (save s (EventTime event) (Raw event)) of
             Some e \<Rightarrow> [LogPrintln e] | None \<Rightarrow> [])
        @ [CallOnExecutionReport event])"
  using assms by (simp add: dispatchEvent_def isExecutionReport_def split: prod.splits)

lemma dispatchEvent_saves:
  "filter isDbSave (snd (dispatchEvent save handler s event)) =
     (if isExecutionReport event
      then [CallDbSaveBinanceRawExecutionReport (EventTime event) (Raw event)] else [])"
  by (cases "EventType event")
     (simp_all add: dispatchEvent_def isExecutionReport_def split: prod.splits option.splits)

lemma savedThenApplied_Nil: "savedThenApplied []"
  by (simp add: savedThenApplied_def)

lemma savedThenApplied_append:
  assumes a: "savedThenApplied as" and b: "savedThenApplied bs"
  shows "savedThenApplied (as @ bs)"
  unfolding savedThenApplied_def
proof (intro allI impI)
  fix j ev
  assume j: "j < length (as @ bs)" and at: "(as @ bs) ! j = CallOnExecutionReport ev"
  show "\<exists>i<j. (as @ bs) ! i = CallDbSaveBinanceRawExecutionReport (EventTime ev) (Raw ev)
           \<and> (\<forall>k. i < k \<and> k < j \<longrightarrow> isLogPrintln ((as @ bs) ! k))"
  proof (cases "j < length as")
    case True
    with at have "as ! j = CallOnExecutionReport ev" by (simp add: nth_append)
    with a True obtain i where i: "i < j"
      "as ! i = CallDbSaveBinanceRawExecutionReport (EventTime ev) (Raw ev)"
      "\<forall>k. i < k \<and> k < j \<longrightarrow> isLogPrintln (as ! k)"
      unfolding savedThenApplied_def by blast
    with True show ?thesis
      by (intro exI[of _ i]) (auto simp: nth_append)
  next
    case False
    define j' where "j' = j - length as"
    from False j have j': "j' < length bs" "j = length as + j'" by (auto simp: j'_def)
    with at have "bs ! j' = CallOnExecutionReport ev" by (simp add: nth_append)
    with b j' obtain i where i: "i < j'"
      "bs ! i = CallDbSaveBinanceRawExecutionReport (EventTime ev) (Raw ev)"
      "\<forall>k. i < k \<and> k < j' \<longrightarrow> isLogPrintln (bs ! k)"
      unfolding savedThenApplied_def by blast
    have "\<forall>k. length as + i < k \<and> k < j \<longrightarrow> isLogPrintln ((as @ bs) ! k)"
    proof (intro allI impI)
      fix k assume k: "length as + i < k \<and> k < j"
      then have "i < k - length as \<and> k - length as < j'" using j' by auto
      with i have "isLogPrintln (bs ! (k - length as))" by blast
      with k show "isLogPrintln ((as @ bs) ! k)" by (simp add: nth_append)
    qed
    with i j' show ?thesis
      by (intro exI[of _ "length as + i"]) (simp add: nth_append)
  qed
qed

lemma savedThenApplied_dispatchEvent:
  "savedThenApplied (snd (dispatchEvent save handler s event))"
proof (cases "EventType event")
  case EventTypeExecutionReport
  obtain err s1 where sv: "save s (EventTime event) (Raw event) = (err, s1)"
    by (cases "save s (EventTime event) (Raw event)")
  show ?thesis
  proof (cases err)
    case None
    with sv EventTypeExecutionReport show ?thesis
      by (auto simp: dispatchEvent_def savedThenApplied_def nth_Cons split: nat.splits)
  next
    case (Some e)
    with sv EventTypeExecutionReport show ?thesis
      by (auto simp: dispatchEvent_def savedThenApplied_def nth_Cons less_Suc_eq
          split: nat.splits)
  qed
next
  case (EventTypeOther x)
  then show ?thesis by (simp add: dispatchEvent_def savedThenApplied_def)
qed

lemma savedThenApplied_dispatchLoop:
  "savedThenApplied (snd (dispatchLoop save handler s events))"
proof (induction events arbitrary: s)
  case Nil
  show ?case by (simp add: savedThenApplied_Nil)
next
  case (Cons event events)
  have "savedThenApplied (snd (dispatchEvent save handler s event))"
    by (rule savedThenApplied_dispatchEvent)
  moreover have "savedThenApplied
      (snd (dispatchLoop save handler (fst (dispatchEvent save handler s event)) events))"
    by (rule Cons.IH)
  ultimately show ?case
    unfolding dispatchLoop_Cons_calls by (rule savedThenApplied_append)
qed

lemma applied_in_trace:
  "event \<in> set events \<Longrightarrow> isExecutionReport event \<Longrightarrow>
   CallOnExecutionReport event \<in> set (snd (dispatchLoop save handler s events))"
proof (induction events arbitrary: s)
  case Nil
  then show ?case by simp
next
  case (Cons e events)
  show ?case
  proof (cases "event = e")
    case True
    with Cons.prems show ?thesis
      unfolding dispatchLoop_Cons_calls by (simp add: dispatchEvent_report)
  next
    case False
    with Cons.prems have "event \<in> set events" by simp
    from Cons.IH[OF this Cons.prems(2)] show ?thesis
      unfolding dispatchLoop_Cons_calls by simp
  qed
qed

text \<open>
  Claim C1, as amended. The claim says that the handler is not called, and the trade state
  not changed, when the store returns an error. The loop does not stop there: when
  \<^verbatim>\<open>DbSaveBinanceRawExecutionReport\<close> returns an error for an execution report, the loop
  logs the error with \<^verbatim>\<open>log.Println\<close> and then calls \<^verbatim>\<open>tradeService.OnExecutionReport\<close>
  on the event, on the state the store call left.
\<close>

theorem dispatch_logs_failed_save_and_applies:
  assumes "isExecutionReport event"
    and "save s (EventTime event) (Raw event) = (Some err, s1)"
  shows "dispatchEvent save handler s event =
     (handler s1 event,
      [CallDbSaveBinanceRawExecutionReport (EventTime event) (Raw event),
       LogPrintln err,
       CallOnExecutionReport event])"
  using assms by (simp add: dispatchEvent_report)

theorem dispatch_logs_failed_save_and_applies_witness:
  "isExecutionReport fillEvent
   \<and> failingSave startProgram (EventTime fillEvent) (Raw fillEvent)
       = (Some ''database is locked'', startProgram)
   \<and> dispatchEvent failingSave tradeHandler startProgram fillEvent =
       (tradeHandler startProgram fillEvent,
        [CallDbSaveBinanceRawExecutionReport (EventTime fillEvent) (Raw fillEvent),
         LogPrintln ''database is locked'',
         CallOnExecutionReport fillEvent])"
proof -
  have a: "isExecutionReport fillEvent"
    by (simp add: isExecutionReport_def fillEvent_def)
  have b: "failingSave startProgram (EventTime fillEvent) (Raw fillEvent)
       = (Some ''database is locked'', startProgram)"
    by (simp add: failingSave_def)
  from dispatch_logs_failed_save_and_applies
    [where save = failingSave and s = startProgram and event = fillEvent
       and handler = tradeHandler, OF a b] a b
  show ?thesis by simp
qed

text \<open>
  Claim C1, as stated, fails: the store refuses the report of the fill of order 42, and
  the handler is called all the same; the trade that waited for the fill is open after it.
\<close>

theorem dispatch_blocks_on_failed_save_counterexample:
  "isExecutionReport fillEvent
   \<and> fst (failingSave startProgram (EventTime fillEvent) (Raw fillEvent))
       = Some ''database is locked''
   \<and> CallOnExecutionReport fillEvent
       \<in> set (snd (dispatchEvent failingSave tradeHandler startProgram fillEvent))
   \<and> snd startProgram = [pendingTrade]
   \<and> snd (fst (dispatchEvent failingSave tradeHandler startProgram fillEvent)) = [openTrade]
   \<and> openTrade \<noteq> pendingTrade"
  by (simp add: dispatchEvent_def isExecutionReport_def fillEvent_def failingSave_def
      tradeHandler_def startProgram_def pendingTrade_def openTrade_def ownsOrder_def
      applyReport_def isTerminal_def fillIsNewer_def applyFill_def fullyFilled_def)

text \<open>
  Claim C2. Durability before apply: in the calls of the dispatch loop, over any events,
  store and handler, every call of \<^verbatim>\<open>tradeService.OnExecutionReport\<close> on an event comes
  after the call of \<^verbatim>\<open>DbSaveBinanceRawExecutionReport\<close> with the time and raw payload of
  that event, with nothing but the logging of the store's error between them; every
  execution report received is handed to the handler; and the handler runs on the state
  that the store call has left.
\<close>

theorem dispatch_saves_before_applying:
  "savedThenApplied (snd (dispatchLoop save handler s events))
   \<and> (\<forall>event \<in> set events. isExecutionReport event \<longrightarrow>
         CallOnExecutionReport event \<in> set (snd (dispatchLoop save handler s events)))
   \<and> (isExecutionReport ev \<longrightarrow>
         fst (dispatchEvent save handler s ev)
           = handler (snd (save s (EventTime ev) (Raw ev))) ev)"
proof (intro conjI ballI impI)
  show "savedThenApplied (snd (dispatchLoop save handler s events))"
    by (rule savedThenApplied_dispatchLoop)
next
  fix event
  assume "event \<in> set events" and "isExecutionReport event"
  then show "CallOnExecutionReport event \<in> set (snd (dispatchLoop save handler s events))"
    by (rule applied_in_trace)
next
  assume "isExecutionReport ev"
  then show "fst (dispatchEvent save handler s ev)
      = handler (snd (save s (EventTime ev) (Raw ev))) ev"
    by (simp add: dispatchEvent_report)
qed

theorem dispatch_saves_before_applying_witness:
  "fillEvent \<in> set [balanceEvent, fillEvent] \<and> isExecutionReport fillEvent
   \<and> (1::nat) < length (snd (dispatchLoop appendingSave tradeHandler startProgram
                              [balanceEvent, fillEvent]))
   \<and> snd (dispatchLoop appendingSave tradeHandler startProgram [balanceEvent, fillEvent]) ! 1
       = CallOnExecutionReport fillEvent
   \<and> snd (dispatchLoop appendingSave tradeHandler startProgram [balanceEvent, fillEvent]) ! 0
       = CallDbSaveBinanceRawExecutionReport (EventTime fillEvent) (Raw fillEvent)
   \<and> savedThenApplied
       (snd (dispatchLoop appendingSave tradeHandler startProgram [balanceEvent, fillEvent]))
   \<and> fst (dispatchEvent appendingSave tradeHandler startProgram fillEvent)
       = ([(1540000000000, ''executionReport 42 FILLED'')], [openTrade])"
proof -
  have calls: "snd (dispatchLoop appendingSave tradeHandler startProgram [balanceEvent, fillEvent])
      = [CallDbSaveBinanceRawExecutionReport (EventTime fillEvent) (Raw fillEvent),
         CallOnExecutionReport fillEvent]"
    by (simp add: dispatchEvent_def fillEvent_def balanceEvent_def appendingSave_def)
  have st: "fst (dispatchEvent appendingSave tradeHandler startProgram fillEvent)
       = ([(1540000000000, ''executionReport 42 FILLED'')], [openTrade])"
    by (simp add: dispatchEvent_def fillEvent_def appendingSave_def
      tradeHandler_def startProgram_def pendingTrade_def openTrade_def ownsOrder_def
      applyReport_def isTerminal_def fillIsNewer_def applyFill_def fullyFilled_def)
  have ex: "isExecutionReport fillEvent"
    by (simp add: isExecutionReport_def fillEvent_def)
  from dispatch_saves_before_applying
    [of appendingSave tradeHandler startProgram "[balanceEvent, fillEvent]" fillEvent]
  have "savedThenApplied
       (snd (dispatchLoop appendingSave tradeHandler startProgram [balanceEvent, fillEvent]))"
    by blast
  with calls st ex show ?thesis by simp
qed

text \<open>
  Claim C3. Every execution report is handed to the store, whatever the trades are: the
  calls of \<^verbatim>\<open>DbSaveBinanceRawExecutionReport\<close> made by the dispatch loop are, in order,
  one for each received event whose type is \<^verbatim>\<open>EventTypeExecutionReport\<close>, with the time and
  raw payload of the event. This holds for every state of the trade service and every
  handler: nothing is looked up before the call.
\<close>

theorem dispatch_saves_every_execution_report:
  "filter isDbSave (snd (dispatchLoop save handler s events)) =
     map (\<lambda>event. CallDbSaveBinanceRawExecutionReport (EventTime event) (Raw event))
       (filter isExecutionReport events)"
proof (induction events arbitrary: s)
  case Nil
  show ?case by simp
next
  case (Cons event events)
  show ?case
    unfolding dispatchLoop_Cons_calls filter_append dispatchEvent_saves Cons.IH
    by simp
qed

text \<open>
  Claim C8. An event whose type is not \<^verbatim>\<open>EventTypeExecutionReport\<close> is dropped at the
  switch: the loop makes no call for it, neither to the store nor to the trade service,
  and leaves the state as it is; the loop does the same with and without the event in
  the stream.
\<close>

theorem dispatch_drops_other_events:
  assumes "\<not> isExecutionReport event"
  shows "dispatchEvent save handler s event = (s, [])
    \<and> dispatchLoop save handler s (pre @ event # post)
        = dispatchLoop save handler s (pre @ post)"
  using assms by (simp add: dispatchLoop_append dispatchEvent_other split: prod.splits)

theorem dispatch_drops_other_events_witness:
  "\<not> isExecutionReport balanceEvent
   \<and> dispatchEvent appendingSave tradeHandler startProgram balanceEvent = (startProgram, [])
   \<and> dispatchLoop appendingSave tradeHandler startProgram ([fillEvent] @ balanceEvent # [])
        = dispatchLoop appendingSave tradeHandler startProgram ([fillEvent] @ [])"
proof -
  have a: "\<not> isExecutionReport balanceEvent"
    by (simp add: isExecutionReport_def balanceEvent_def)
  from dispatch_drops_other_events
    [OF a, of appendingSave tradeHandler startProgram "[fillEvent]" "[]"] a
  show ?thesis by simp
qed

section \<open>Properties of the clock check\<close>

declare bitLength.simps [simp del]

lemma bitLength_lower: "0 < n \<Longrightarrow> 2 ^ (bitLength n - 1) \<le> n"
proof (induction n rule: bitLength.induct)
  case (1 n)
  show ?case
  proof (cases "n div 2 = 0")
    case True
    with "1.prems" have "n = 1" by (simp add: div_eq_0_iff)
    then show ?thesis by (simp add: bitLength.simps[of "Suc 0"] bitLength.simps[of 0])
  next
    case False
    then have pos: "0 < n div 2" by simp
    with 1 have ih: "2 ^ (bitLength (n div 2) - 1) \<le> n div 2" by simp
    have bl: "bitLength n = Suc (bitLength (n div 2))"
      using "1.prems" by (subst bitLength.simps) simp
    have "bitLength (n div 2) \<noteq> 0" using pos by (subst bitLength.simps) simp
    then obtain m where m: "bitLength (n div 2) = Suc m" by (cases "bitLength (n div 2)") auto
    with ih have "2 ^ m \<le> n div 2" by simp
    then have "2 * 2 ^ m \<le> n" by linarith
    with bl m show ?thesis by simp
  qed
qed

text \<open>Below \<open>2 ^ 53\<close> the conversion is exact.\<close>

lemma float64_small: "\<bar>x\<bar> < 2 ^ 53 \<Longrightarrow> float64 x = x"
  by (simp add: float64_def)

text \<open>From \<open>2 ^ 53\<close> on the result keeps 53 digits, so it is at least \<open>2 ^ 52\<close>.\<close>

lemma float64_large:
  assumes "2 ^ 53 \<le> \<bar>x\<bar>"
  shows "2 ^ 52 \<le> \<bar>float64 x\<bar>"
proof -
  define a where "a = \<bar>x\<bar>"
  define e where "e = bitLength (nat a) - 53"
  define q where "q = a div 2 ^ e"
  define r where "r = a mod 2 ^ e"
  define q' where "q' = (if 2 ^ e < 2 * r \<or> (2 * r = 2 ^ e \<and> odd q) then q + 1 else q)"
  have a53: "2 ^ 53 \<le> a" using assms by (simp add: a_def)
  then have apos: "0 < nat a" by simp
  have "2 ^ (bitLength (nat a) - 1) \<le> nat a" by (rule bitLength_lower[OF apos])
  then have "int (2 ^ (bitLength (nat a) - 1)) \<le> int (nat a)" by (simp only: of_nat_le_iff)
  then have low: "(2::int) ^ (bitLength (nat a) - 1) \<le> a"
    using apos by simp
  have "53 < bitLength (nat a) \<or> bitLength (nat a) \<le> 53" by arith
  then have "(2::int) ^ 52 * 2 ^ e \<le> a"
  proof
    assume "53 < bitLength (nat a)"
    then have "52 + e = bitLength (nat a) - 1" by (simp add: e_def)
    then have "(2::int) ^ (52 + e) = 2 ^ (bitLength (nat a) - 1)" by simp
    then have "(2::int) ^ 52 * 2 ^ e = 2 ^ (bitLength (nat a) - 1)"
      by (simp only: power_add)
    with low show ?thesis by simp
  next
    assume "bitLength (nat a) \<le> 53"
    then have "e = 0" by (simp add: e_def)
    with a53 show ?thesis by simp
  qed
  then have "((2::int) ^ 52 * 2 ^ e) div 2 ^ e \<le> a div 2 ^ e"
    by (rule zdiv_mono1) simp
  then have q52: "2 ^ 52 \<le> q"
    unfolding q_def by simp
  have "q \<le> q'" by (simp add: q'_def)
  with q52 have q'52: "2 ^ 52 \<le> q'" by linarith
  have "(1::int) \<le> 2 ^ e" by simp
  with q'52 have "2 ^ 52 * 1 \<le> q' * 2 ^ e"
    by (intro mult_mono) simp_all
  then have big: "2 ^ 52 \<le> q' * 2 ^ e" by simp
  have x0: "x \<noteq> 0" using assms by auto
  have "\<not> \<bar>x\<bar> < 2 ^ 53" using assms by simp
  then have "float64 x = sgn x * (q' * 2 ^ e)"
    unfolding float64_def Let_def q'_def q_def r_def e_def a_def
    by (simp only: if_False)
  then have "\<bar>float64 x\<bar> = \<bar>sgn x\<bar> * \<bar>q' * 2 ^ e\<bar>"
    by (simp only: abs_mult)
  also have "\<bar>sgn x\<bar> = 1" using x0 by (simp add: abs_sgn_eq)
  finally have "\<bar>float64 x\<bar> = q' * 2 ^ e" using big by simp
  with big show ?thesis by simp
qed

lemma float64_exceeds: "999 < \<bar>float64 x\<bar> \<longleftrightarrow> 999 < \<bar>x\<bar>"
proof (cases "\<bar>x\<bar> < 2 ^ 53")
  case True
  then show ?thesis by (simp add: float64_small)
next
  case False
  then have "2 ^ 53 \<le> \<bar>x\<bar>" by simp
  from float64_large[OF this] this show ?thesis by simp
qed

lemma sdiv_million_bounds:
  fixes k :: int
  assumes "- (2 ^ 63) \<le> k" "k < 2 ^ 63"
  shows "- 9223372036854 \<le> k sdiv 1000000 \<and> k sdiv 1000000 \<le> 9223372036854"
proof -
  have "\<bar>k\<bar> \<le> 9223372036854775808" using assms by simp
  then have "\<bar>k\<bar> div 1000000 \<le> 9223372036854775808 div 1000000"
    by (rule zdiv_mono1) simp
  then have le: "\<bar>k\<bar> div 1000000 \<le> 9223372036854" by simp
  have ge: "0 \<le> \<bar>k\<bar> div 1000000" by (simp add: pos_imp_zdiv_nonneg_iff)
  have "k sdiv 1000000 = sgn k * (\<bar>k\<bar> div 1000000)"
    by (simp add: signed_divide_int_def)
  with le ge show ?thesis by (cases "k < 0") (auto simp: sgn_if)
qed

text \<open>The quotient fits an \<^verbatim>\<open>int64\<close>: the local time in milliseconds is the quotient.\<close>

lemma sint_milliseconds:
  "sint (milliseconds nanos) = sint nanos sdiv 1000000"
proof -
  have r: "- (2 ^ 63) \<le> sint nanos" "sint nanos < 2 ^ 63"
    using sint_ge[of nanos] sint_lt[of nanos] by simp_all
  from sdiv_million_bounds[OF r]
  have "- (2 ^ 63) \<le> sint nanos sdiv 1000000" "sint nanos sdiv 1000000 < 2 ^ 63"
    by simp_all
  then have "signed_take_bit 63 (sint nanos sdiv 1000000) = sint nanos sdiv 1000000"
    by (rule signed_take_bit_int_eq_self)
  then show ?thesis by (simp add: milliseconds_def sint_sbintrunc')
qed

lemma milliseconds_bounds:
  "- 9223372036854 \<le> sint (milliseconds nanos) \<and> sint (milliseconds nanos) \<le> 9223372036854"
proof -
  have r: "- (2 ^ 63) \<le> sint nanos" "sint nanos < 2 ^ 63"
    using sint_ge[of nanos] sint_lt[of nanos] by simp_all
  from sdiv_million_bounds[OF r] show ?thesis by (simp only: sint_milliseconds)
qed

text \<open>
  Where the subtraction of the server time wraps around, the wrapped difference is far
  above 999 in absolute value, as the true difference is.
\<close>

lemma wrapped_difference_exceeds:
  fixes n s :: int
  assumes n: "- 9223372036854 \<le> n" "n \<le> 9223372036854"
    and s: "- (2 ^ 63) \<le> s" "s < 2 ^ 63"
  shows "999 < \<bar>signed_take_bit 63 (n - s)\<bar> \<longleftrightarrow> 999 < \<bar>n - s\<bar>"
proof -
  define d where "d = n - s + 2 ^ 63"
  have st: "signed_take_bit 63 (n - s) = d mod 2 ^ 64 - 2 ^ 63"
    by (simp add: signed_take_bit_eq_take_bit_shift take_bit_eq_mod d_def)
  have range: "- 9223372036854 < d" "d < 2 ^ 64 + 9223372036855"
    using n s by (simp_all add: d_def)
  consider "d < 0" | "0 \<le> d \<and> d < 2 ^ 64" | "2 ^ 64 \<le> d" by linarith
  then show ?thesis
  proof cases
    case 1
    with range have "(d + 2 ^ 64) mod 2 ^ 64 = d + 2 ^ 64"
      by (intro mod_pos_pos_trivial) simp_all
    moreover have "(d + 2 ^ 64) mod 2 ^ 64 = d mod 2 ^ 64"
      by (rule mod_add_self2)
    ultimately have "d mod 2 ^ 64 = d + 2 ^ 64" by simp
    with st 1 range show ?thesis by (simp add: d_def)
  next
    case 2
    then have "d mod 2 ^ 64 = d" by simp
    with st show ?thesis by (simp add: d_def)
  next
    case 3
    with range have "(d - 2 ^ 64) mod 2 ^ 64 = d - 2 ^ 64"
      by (intro mod_pos_pos_trivial) simp_all
    moreover have "(d - 2 ^ 64) mod 2 ^ 64 = d mod 2 ^ 64"
      by (rule minus_mod_self2)
    ultimately have "d mod 2 ^ 64 = d - 2 ^ 64" by simp
    with st 3 range show ?thesis by (simp add: d_def)
  qed
qed

lemma timeDifference_exceeds:
  "999 < timeDifference (milliseconds nanos) serverTime
     \<longleftrightarrow> 999 < \<bar>sint (milliseconds nanos) - sint serverTime\<bar>"
proof -
  have s: "- (2 ^ 63) \<le> sint serverTime" "sint serverTime < 2 ^ 63"
    using sint_ge[of serverTime] sint_lt[of serverTime] by simp_all
  have n: "- 9223372036854 \<le> sint (milliseconds nanos)" "sint (milliseconds nanos) \<le> 9223372036854"
    using milliseconds_bounds[of nanos] by simp_all
  have "sint (milliseconds nanos - serverTime)
          = signed_take_bit 63 (sint (milliseconds nanos) - sint serverTime)"
    by (simp add: sint_word_ariths)
  then show ?thesis
    unfolding timeDifference_def float64_exceeds
    using wrapped_difference_exceeds[OF n s] by simp
qed

lemma clockCheck_append: "clockCheck (cs @ cs') = clockCheck cs @ clockCheck cs'"
  by (induction cs) simp_all

lemma clockCheckRound_failed:
  "GetTimeResult c = Inl err \<Longrightarrow>
   clockCheckRound c =
     [NewRestClient, GetTime, LogErrorf ''Failed to get from Binance API'' err, SleepMinutes 1]"
  by (simp add: clockCheckRound_def)

lemma clockCheckRound_broadcasts:
  "filter isBroadcast (clockCheckRound c) =
     (case GetTimeResult c of
        Inl err \<Rightarrow> []
      | Inr serverTime \<Rightarrow>
          (if 999 < \<bar>sint (milliseconds (UnixNano c)) - sint serverTime\<bar> then
             [Broadcast ClientNoticeLevelWarning
                ''Time difference between Binance and Maker server too large, orders may fail.'']
           else []))"
  by (cases "GetTimeResult c")
     (simp_all add: clockCheckRound_def Let_def timeDifference_exceeds)

lemma clockCheckRound_not_fatal: "filter isFatalf (clockCheckRound c) = []"
  by (cases "GetTimeResult c") (simp_all add: clockCheckRound_def Let_def)

lemma clockCheckRound_sleeps:
  "filter (\<lambda>a. a = SleepMinutes 1) (clockCheckRound c) = [SleepMinutes 1]"
  by (cases "GetTimeResult c") (simp_all add: clockCheckRound_def Let_def)

lemma clockCheck_not_fatal: "filter isFatalf (clockCheck cs) = []"
  by (induction cs) (simp_all add: clockCheckRound_not_fatal)

lemma clockCheck_sleeps:
  "length (filter (\<lambda>a. a = SleepMinutes 1) (clockCheck cs)) = length cs"
proof (induction cs)
  case Nil
  show ?case by simp
next
  case (Cons c cs)
  have "length (filter (\<lambda>a. a = SleepMinutes 1) (clockCheckRound c)) = 1"
    by (simp only: clockCheckRound_sleeps) simp
  with Cons.IH show ?case by (simp del: One_nat_def)
qed

text \<open>The three rounds, computed.\<close>

lemma clockCheckRound_examples:
  "clockCheckRound skewedTimeCheck =
     [NewRestClient, GetTime,
      LogFieldsWarnf ''Time difference from Binance servers may be too large; order may fail''
        120000000 1000,
      Broadcast ClientNoticeLevelWarning
        ''Time difference between Binance and Maker server too large, orders may fail.'',
      SleepMinutes 1]"
  "clockCheckRound punctualTimeCheck =
     [NewRestClient, GetTime, LogFieldsInfof ''Binance time check'' 120000000 999,
      SleepMinutes 1]"
  by (simp_all add: clockCheckRound_def skewedTimeCheck_def punctualTimeCheck_def
      milliseconds_def timeDifference_def float64_def signed_divide_int_def)

text \<open>
  Claim C6. Clock skew is a notice, never an error. In a round of the clock check, a
  client notice is broadcast exactly when the request for the exchange's time succeeded
  and the absolute difference between the local time in milliseconds and the server time
  is above 999; the notice is the warning. No round of the loop ends the process, and the
  loop goes on to the next round after every round: the calls after \<open>cs\<close> and one more
  round are the calls after \<open>cs\<close> followed by the calls of that round, and there is one
  sleep of a minute for each round.
\<close>

theorem clock_skew_is_a_notice_only:
  "filter isBroadcast (clockCheckRound c) =
     (case GetTimeResult c of
        Inl err \<Rightarrow> []
      | Inr serverTime \<Rightarrow>
          (if 999 < \<bar>sint (milliseconds (UnixNano c)) - sint serverTime\<bar> then
             [Broadcast ClientNoticeLevelWarning
                ''Time difference between Binance and Maker server too large, orders may fail.'']
           else []))
   \<and> filter isFatalf (clockCheck cs) = []
   \<and> length (filter (\<lambda>a. a = SleepMinutes 1) (clockCheck cs)) = length cs
   \<and> clockCheck (cs @ [c]) = clockCheck cs @ clockCheckRound c"
proof (intro conjI)
  show "filter isBroadcast (clockCheckRound c) =
     (case GetTimeResult c of
        Inl err \<Rightarrow> []
      | Inr serverTime \<Rightarrow>
          (if 999 < \<bar>sint (milliseconds (UnixNano c)) - sint serverTime\<bar> then
             [Broadcast ClientNoticeLevelWarning
                ''Time difference between Binance and Maker server too large, orders may fail.'']
           else []))"
    by (rule clockCheckRound_broadcasts)
  show "filter isFatalf (clockCheck cs) = []"
    by (rule clockCheck_not_fatal)
  show "length (filter (\<lambda>a. a = SleepMinutes 1) (clockCheck cs)) = length cs"
    by (rule clockCheck_sleeps)
  show "clockCheck (cs @ [c]) = clockCheck cs @ clockCheckRound c"
    by (simp add: clockCheck_append)
qed

text \<open>
  Claim C10. When the request for the exchange's time fails, the round logs the error and
  sleeps one minute, and the loop goes on with the next round: the round broadcasts no
  client notice and does not end the process.
\<close>

theorem clock_check_retries_after_failed_request:
  assumes "GetTimeResult c = Inl err"
  shows "clockCheckRound c =
       [NewRestClient, GetTime, LogErrorf ''Failed to get from Binance API'' err,
        SleepMinutes 1]
    \<and> clockCheck (c # cs) =
       [NewRestClient, GetTime, LogErrorf ''Failed to get from Binance API'' err,
        SleepMinutes 1] @ clockCheck cs
    \<and> filter isBroadcast (clockCheckRound c) = []
    \<and> filter isFatalf (clockCheckRound c) = []"
proof -
  from assms have r: "clockCheckRound c =
       [NewRestClient, GetTime, LogErrorf ''Failed to get from Binance API'' err,
        SleepMinutes 1]"
    by (rule clockCheckRound_failed)
  then have "clockCheck (c # cs) =
       [NewRestClient, GetTime, LogErrorf ''Failed to get from Binance API'' err,
        SleepMinutes 1] @ clockCheck cs"
    by simp
  moreover from r have "filter isBroadcast (clockCheckRound c) = []" by simp
  moreover from r have "filter isFatalf (clockCheckRound c) = []" by simp
  ultimately show ?thesis using r by blast
qed

theorem clock_check_retries_after_failed_request_witness:
  "GetTimeResult failedTimeCheck = Inl ''connection refused''
   \<and> clockCheck [failedTimeCheck, punctualTimeCheck] =
       [NewRestClient, GetTime,
        LogErrorf ''Failed to get from Binance API'' ''connection refused'', SleepMinutes 1,
        NewRestClient, GetTime, LogFieldsInfof ''Binance time check'' 120000000 999,
        SleepMinutes 1]
   \<and> filter isBroadcast (clockCheckRound failedTimeCheck) = []
   \<and> filter isFatalf (clockCheckRound failedTimeCheck) = []"
proof -
  have a: "GetTimeResult failedTimeCheck = Inl ''connection refused''"
    by (simp add: failedTimeCheck_def)
  from clock_check_retries_after_failed_request [OF a, of "[punctualTimeCheck]"] a
  show ?thesis by (simp add: clockCheckRound_examples)
qed

section \<open>Properties of the intake of execution reports\<close>

lemma applyFill_id [simp]: "ExchangeOrderId (applyFill r ord) = ExchangeOrderId ord"
  by (simp add: applyFill_def)

lemma applyFill_not_newer [simp]: "\<not> fillIsNewer r (applyFill r ord)"
  by (simp add: applyFill_def fillIsNewer_def)

lemma ownsOrder_applyReport: "ownsOrder (applyReport r t) oid = ownsOrder t oid"
  by (cases "Exit t") (simp_all add: ownsOrder_def applyReport_def Let_def)

lemma applyReport_not_newer:
  assumes "\<forall>ord \<in> set (ordersOf t). ExchangeOrderId ord = OrderId r \<longrightarrow> \<not> fillIsNewer r ord"
  shows "applyReport r t = t"
  using assms by (cases "Exit t") (auto simp: applyReport_def ordersOf_def)

text \<open>
  After a report is applied to a trade, the order it filled records the report's
  quantity, so the report is not newer any more; a trade that became \<open>Closed\<close> accepts
  nothing.
\<close>

lemma applyReport_idem: "applyReport r (applyReport r t) = applyReport r t"
proof (cases "isTerminal (State t)")
  case True
  then show ?thesis by (simp add: applyReport_def)
next
  case live: False
  show ?thesis
  proof (cases "ExchangeOrderId (Entry t) = OrderId r")
    case entry: True
    show ?thesis
    proof (cases "fillIsNewer r (Entry t)")
      case True
      with live entry show ?thesis
        by (simp add: applyReport_def Let_def isTerminal_def)
    next
      case False
      with live entry show ?thesis by (simp add: applyReport_def)
    qed
  next
    case other: False
    show ?thesis
    proof (cases "Exit t")
      case None
      with live other show ?thesis by (simp add: applyReport_def)
    next
      case (Some x)
      show ?thesis
      proof (cases "ExchangeOrderId x = OrderId r \<and> fillIsNewer r x")
        case True
        with live other Some show ?thesis
          by (simp add: applyReport_def Let_def isTerminal_def)
      next
        case False
        with live other Some show ?thesis by (auto simp add: applyReport_def)
      qed
    qed
  qed
qed

lemma OnExecutionReport_idem:
  "OnExecutionReport (OnExecutionReport ts event) event = OnExecutionReport ts event"
  by (induction ts) (simp_all add: ownsOrder_applyReport applyReport_idem)

lemma OnExecutionReport_located:
  assumes "find (\<lambda>t. ownsOrder t (OrderId (Report event))) ts = Some t"
    and "applyReport (Report event) t = t"
  shows "OnExecutionReport ts event = ts"
  using assms by (induction ts) (auto split: if_splits)

lemma OnExecutionReport_unknown_order:
  assumes "find (\<lambda>t. ownsOrder t (OrderId (Report event))) ts = None"
  shows "OnExecutionReport ts event = ts"
  using assms by (induction ts) (auto split: if_splits)

text \<open>The first scenario of section 8 of the specification: the full fill opens the trade.\<close>

lemma OnExecutionReport_fill_opens:
  "OnExecutionReport [pendingTrade] fillEvent = [openTrade]"
  by (simp add: fillEvent_def pendingTrade_def openTrade_def ownsOrder_def
      applyReport_def isTerminal_def fillIsNewer_def applyFill_def fullyFilled_def)

text \<open>
  Claim C5. \<^verbatim>\<open>OnExecutionReport\<close> is idempotent: for every list of trades and every
  event, applying the event twice leaves the trades that applying it once leaves. And a
  report whose fill state is not newer than the state recorded by the trade it is for
  changes nothing.
\<close>

theorem OnExecutionReport_idempotent:
  "OnExecutionReport (OnExecutionReport ts event) event = OnExecutionReport ts event
   \<and> (find (\<lambda>t. ownsOrder t (OrderId (Report event))) ts = Some t
       \<and> (\<forall>ord \<in> set (ordersOf t).
            ExchangeOrderId ord = OrderId (Report event) \<longrightarrow> \<not> fillIsNewer (Report event) ord)
       \<longrightarrow> OnExecutionReport ts event = ts)"
proof (intro conjI impI)
  show "OnExecutionReport (OnExecutionReport ts event) event = OnExecutionReport ts event"
    by (rule OnExecutionReport_idem)
next
  assume a: "find (\<lambda>t. ownsOrder t (OrderId (Report event))) ts = Some t
       \<and> (\<forall>ord \<in> set (ordersOf t).
            ExchangeOrderId ord = OrderId (Report event) \<longrightarrow> \<not> fillIsNewer (Report event) ord)"
  then have "applyReport (Report event) t = t"
    by (intro applyReport_not_newer) simp
  with a show "OnExecutionReport ts event = ts"
    by (intro OnExecutionReport_located[of event ts t]) simp_all
qed

theorem OnExecutionReport_idempotent_witness:
  "find (\<lambda>t. ownsOrder t (OrderId (Report fillEvent))) [openTrade] = Some openTrade
   \<and> ordersOf openTrade = [Entry openTrade]
   \<and> ExchangeOrderId (Entry openTrade) = OrderId (Report fillEvent)
   \<and> \<not> fillIsNewer (Report fillEvent) (Entry openTrade)
   \<and> OnExecutionReport [openTrade] fillEvent = [openTrade]
   \<and> OnExecutionReport (OnExecutionReport [pendingTrade] fillEvent) fillEvent = [openTrade]"
proof -
  have f: "find (\<lambda>t. ownsOrder t (OrderId (Report fillEvent))) [openTrade] = Some openTrade"
    by (simp add: ownsOrder_def openTrade_def fillEvent_def)
  have o: "ordersOf openTrade = [Entry openTrade]"
    by (simp add: ordersOf_def openTrade_def)
  have i: "ExchangeOrderId (Entry openTrade) = OrderId (Report fillEvent)"
    by (simp add: openTrade_def fillEvent_def)
  have n: "\<not> fillIsNewer (Report fillEvent) (Entry openTrade)"
    by (simp add: fillIsNewer_def openTrade_def fillEvent_def)
  have "\<forall>ord \<in> set (ordersOf openTrade).
      ExchangeOrderId ord = OrderId (Report fillEvent) \<longrightarrow> \<not> fillIsNewer (Report fillEvent) ord"
    using o n by simp
  with f OnExecutionReport_idempotent [of "[openTrade]" fillEvent openTrade]
  have "OnExecutionReport [openTrade] fillEvent = [openTrade]" by blast
  moreover have "OnExecutionReport (OnExecutionReport [pendingTrade] fillEvent) fillEvent
      = OnExecutionReport [pendingTrade] fillEvent"
    by (rule OnExecutionReport_idempotent [of "[pendingTrade]" fillEvent openTrade, THEN conjunct1])
  then have "OnExecutionReport (OnExecutionReport [pendingTrade] fillEvent) fillEvent
      = [openTrade]"
    by (simp only: OnExecutionReport_fill_opens)
  ultimately show ?thesis using f o i n by simp
qed

section \<open>Properties of the exchange info service\<close>

lemma updateOrLog_failed:
  "updateOrLog svc (Inl err) =
     (svc, [CallUpdate, LogErrorf ''Binance exchange info server failed to update'' err])"
  by (simp add: updateOrLog_def Update_def)

lemma updateOrLog_succeeded:
  "updateOrLog svc (Inr info) = (svc\<lparr>Snapshot := Some info\<rparr>, [CallUpdate])"
  by (simp add: updateOrLog_def Update_def)

lemma updateOrLog_calls: "SleepMinutes 1 # snd (updateOrLog svc fetched) = refreshRound fetched"
  by (cases fetched) (simp_all add: updateOrLog_failed updateOrLog_succeeded refreshRound_def)

lemma exchangeInfoRefresh_append:
  "exchangeInfoRefresh svc (xs @ ys) =
     (case exchangeInfoRefresh svc xs of
        (svc1, c1) \<Rightarrow> (case exchangeInfoRefresh svc1 ys of (svc2, c2) \<Rightarrow> (svc2, c1 @ c2)))"
  by (induction xs arbitrary: svc) (simp_all split: prod.splits)

lemma exchangeInfoRefresh_Cons_calls:
  "snd (exchangeInfoRefresh svc (fetched # rest)) =
     (SleepMinutes 1 # snd (updateOrLog svc fetched))
       @ snd (exchangeInfoRefresh (fst (updateOrLog svc fetched)) rest)"
  by (simp split: prod.splits)

lemma exchangeInfoRefresh_calls:
  "snd (exchangeInfoRefresh svc fetches) = concat (map refreshRound fetches)"
proof (induction fetches arbitrary: svc)
  case Nil
  show ?case by simp
next
  case (Cons fetched rest)
  have "snd (exchangeInfoRefresh svc (fetched # rest)) =
     (SleepMinutes 1 # snd (updateOrLog svc fetched))
       @ snd (exchangeInfoRefresh (fst (updateOrLog svc fetched)) rest)"
    by (rule exchangeInfoRefresh_Cons_calls)
  also have "\<dots> = refreshRound fetched @ concat (map refreshRound rest)"
    by (simp only: updateOrLog_calls Cons.IH)
  finally show ?case by simp
qed

lemma refreshRound_not_fatal: "filter isFatalf (refreshRound fetched) = []"
  by (cases fetched) (simp_all add: refreshRound_def)

lemma exchangeInfoRefresh_not_fatal:
  "filter isFatalf (snd (exchangeInfoRefresh svc fetches)) = []"
  unfolding exchangeInfoRefresh_calls
  by (induction fetches) (simp_all add: refreshRound_not_fatal)

lemma exchangeInfoRefresh_failed_round:
  "exchangeInfoRefresh svc (fetches @ [Inl err]) =
     (fst (exchangeInfoRefresh svc fetches),
      snd (exchangeInfoRefresh svc fetches)
        @ [SleepMinutes 1, CallUpdate,
           LogErrorf ''Binance exchange info server failed to update'' err])"
  by (simp add: exchangeInfoRefresh_append updateOrLog_failed split: prod.splits)

lemma initBinanceExchangeInfoService_calls:
  "snd (initBinanceExchangeInfoService fetched) =
     CallNewExchangeInfoService # CallUpdate
       # (case fetched of
            Inl err \<Rightarrow> [LogErrorf ''Binance exchange info server failed to update'' err]
          | Inr info \<Rightarrow> [])
       @ [Go ExchangeInfoRefresh]"
  by (cases fetched) (simp_all add: initBinanceExchangeInfoService_def updateOrLog_def Update_def)

lemma initBinanceExchangeInfoService_failed:
  "initBinanceExchangeInfoService (Inl err) =
     (NewExchangeInfoService,
      [CallNewExchangeInfoService, CallUpdate,
       LogErrorf ''Binance exchange info server failed to update'' err,
       Go ExchangeInfoRefresh])"
  by (simp add: initBinanceExchangeInfoService_def updateOrLog_failed)

text \<open>
  Claim C7. The refresh of the exchange info: every round of the loop sleeps one minute
  and then calls \<^verbatim>\<open>Update\<close> once, and logs the error if the call fails; a failed round
  leaves the service, and so its snapshot, as the rounds before left it, and the loop goes
  on; no round ends the process. When the first \<^verbatim>\<open>Update\<close> fails,
  \<^verbatim>\<open>initBinanceExchangeInfoService\<close> logs the error, starts the loop and returns the new
  service, which the first successful round fills.
\<close>

theorem exchange_info_refresh_survives_failures:
  "snd (exchangeInfoRefresh svc fetches) = concat (map refreshRound fetches)
   \<and> exchangeInfoRefresh svc (fetches @ [Inl err]) =
       (fst (exchangeInfoRefresh svc fetches),
        snd (exchangeInfoRefresh svc fetches)
          @ [SleepMinutes 1, CallUpdate,
             LogErrorf ''Binance exchange info server failed to update'' err])
   \<and> filter isFatalf (snd (exchangeInfoRefresh svc fetches)) = []
   \<and> initBinanceExchangeInfoService (Inl err) =
       (NewExchangeInfoService,
        [CallNewExchangeInfoService, CallUpdate,
         LogErrorf ''Binance exchange info server failed to update'' err,
         Go ExchangeInfoRefresh])
   \<and> fst (exchangeInfoRefresh (fst (initBinanceExchangeInfoService (Inl err)))
            [Inl err, Inr info])
       = \<lparr>Snapshot = Some info\<rparr>"
proof (intro conjI)
  show "snd (exchangeInfoRefresh svc fetches) = concat (map refreshRound fetches)"
    by (rule exchangeInfoRefresh_calls)
  show "exchangeInfoRefresh svc (fetches @ [Inl err]) =
       (fst (exchangeInfoRefresh svc fetches),
        snd (exchangeInfoRefresh svc fetches)
          @ [SleepMinutes 1, CallUpdate,
             LogErrorf ''Binance exchange info server failed to update'' err])"
    by (rule exchangeInfoRefresh_failed_round)
  show "filter isFatalf (snd (exchangeInfoRefresh svc fetches)) = []"
    by (rule exchangeInfoRefresh_not_fatal)
  show "initBinanceExchangeInfoService (Inl err) =
       (NewExchangeInfoService,
        [CallNewExchangeInfoService, CallUpdate,
         LogErrorf ''Binance exchange info server failed to update'' err,
         Go ExchangeInfoRefresh])"
    by (rule initBinanceExchangeInfoService_failed)
  show "fst (exchangeInfoRefresh (fst (initBinanceExchangeInfoService (Inl err)))
            [Inl err, Inr info])
       = \<lparr>Snapshot = Some info\<rparr>"
    by (simp add: initBinanceExchangeInfoService_failed updateOrLog_failed
        updateOrLog_succeeded NewExchangeInfoService_def)
qed

section \<open>Properties of ServerMain\<close>

lemma listenGuard_ConfigFilename [simp]:
  "listenGuard (flags\<lparr>ConfigFilename := c\<rparr>) = listenGuard flags"
  by (simp add: listenGuard_def)

lemma listenGuard_refuses:
  "listenGuard flags \<noteq> None \<longleftrightarrow>
     Host flags \<noteq> ''127.0.0.1'' \<and> (\<not> EnableAuth flags \<or> \<not> TLS flags \<or> \<not> ItsAllMyFault flags)"
  by (simp add: listenGuard_def)

text \<open>The calls of a start that is not ended.\<close>

lemma trace_running:
  assumes "\<not> startupAborts flags env"
  shows "snd (ServerMain join flags env) =
     [LogInfof ''This is Maker version %s (git revision %s)'', LogSetLevelDebug,
      OsStat (DataDirectory flags)]
     @ (if DataDirectoryExists env then [] else [OsMkdir (DataDirectory flags)])
     @ (if NoLog flags then []
        else [LogAddFileOutputHook (join (DataDirectory flags) ''maker.log'')])
     @ tlsSetup (flags\<lparr>ConfigFilename := join (DataDirectory flags) ''maker.yaml''\<rparr>) env
     @ startServices (flags\<lparr>ConfigFilename := join (DataDirectory flags) ''maker.yaml''\<rparr>) env
     @ startServer (flags\<lparr>ConfigFilename := join (DataDirectory flags) ''maker.yaml''\<rparr>)"
  using assms by (auto simp: ServerMain_def startupAborts_def Let_def)

text \<open>The calls of a start that is ended: preparations, then the fatal log call.\<close>

lemma trace_aborted:
  assumes "startupAborts flags env"
  shows "\<exists>msg. snd (ServerMain join flags env) =
     [LogInfof ''This is Maker version %s (git revision %s)'', LogSetLevelDebug,
      OsStat (DataDirectory flags)]
     @ (if DataDirectoryExists env then [] else [OsMkdir (DataDirectory flags)])
     @ (if NoLog flags \<or> (\<not> DataDirectoryExists env \<and> MkdirError env \<noteq> None) then []
        else [LogAddFileOutputHook (join (DataDirectory flags) ''maker.log'')])
     @ [Fatalf msg]"
  using assms by (auto simp: ServerMain_def startupAborts_def Let_def)

lemma running_order:
  assumes "\<not> startupAborts flags env"
  shows "precedes (DbOpen (DataDirectory flags)) RestoreTrades (snd (ServerMain join flags env))"
   "precedes NewTradeService RestoreTrades (snd (ServerMain join flags env))"
   "precedes RestoreTrades Subscribe (snd (ServerMain join flags env))"
   "precedes RestoreTrades (Go UserDataStreamRun) (snd (ServerMain join flags env))"
   "precedes RestoreTrades (Go EventDispatch) (snd (ServerMain join flags env))"
  unfolding trace_running[OF assms] precedes_def tlsSetup_def startServices_def startServer_def
    initBinanceExchangeInfoService_calls Let_def
  by (simp_all split: sum.splits)

lemma running_distinct:
  assumes "\<not> startupAborts flags env"
  shows "distinct (snd (ServerMain join flags env))"
  unfolding trace_running[OF assms] tlsSetup_def startServices_def startServer_def
    initBinanceExchangeInfoService_calls Let_def
  by (auto split: sum.splits)

lemma running_reaches:
  assumes "\<not> startupAborts flags env"
  shows "filter isFatalf (snd (ServerMain join flags env)) = []"
    "DbOpen (DataDirectory flags) \<in> set (snd (ServerMain join flags env))"
    "RestoreTrades \<in> set (snd (ServerMain join flags env))"
    "Subscribe \<in> set (snd (ServerMain join flags env))"
    "Go UserDataStreamRun \<in> set (snd (ServerMain join flags env))"
    "Go EventDispatch \<in> set (snd (ServerMain join flags env))"
  unfolding trace_running[OF assms] tlsSetup_def startServices_def startServer_def
    initBinanceExchangeInfoService_calls Let_def
  by (simp_all split: sum.splits)

lemma aborted_trace:
  assumes "startupAborts flags env"
  shows "\<exists>msg. last (snd (ServerMain join flags env)) = Fatalf msg"
    "filter isDbOpen (snd (ServerMain join flags env)) = []"
    "filter isServiceCreation (snd (ServerMain join flags env)) = []"
    "RestoreTrades \<notin> set (snd (ServerMain join flags env))"
    "Subscribe \<notin> set (snd (ServerMain join flags env))"
    "Go UserDataStreamRun \<notin> set (snd (ServerMain join flags env))"
    "Go EventDispatch \<notin> set (snd (ServerMain join flags env))"
    "distinct (snd (ServerMain join flags env))"
  using trace_aborted[OF assms, of join] by (auto split: if_splits)

text \<open>The store is opened first, the trade service is created next (lines 114 and 116).\<close>

lemma store_opened_before_trade_service:
  "precedes (DbOpen (DataDirectory flags)) NewTradeService (snd (ServerMain join flags env))"
proof (cases "startupAborts flags env")
  case True
  from aborted_trace(3)[OF True, of join]
  have "NewTradeService \<notin> set (snd (ServerMain join flags env))"
    by (auto simp: filter_empty_conv)
  then show ?thesis by (simp add: precedes_def)
next
  case False
  show ?thesis
    unfolding trace_running[OF False] precedes_def tlsSetup_def startServices_def
      startServer_def initBinanceExchangeInfoService_calls Let_def
    by (simp split: sum.splits)
qed

text \<open>
  Claim C4. The order of recovery at startup: in the calls of \<^verbatim>\<open>ServerMain\<close>, for all
  flags and surroundings, \<^verbatim>\<open>restoreTrades\<close> comes after the store is opened and after
  the trade service is created, and before the user-data stream is subscribed to, before
  its \<^verbatim>\<open>Run\<close> is started and before the loop that consumes its events is started; no
  call occurs twice. A start that is not ended makes all these calls.
\<close>

theorem recovery_precedes_user_data_stream:
  "precedes (DbOpen (DataDirectory flags)) RestoreTrades (snd (ServerMain join flags env))
   \<and> precedes NewTradeService RestoreTrades (snd (ServerMain join flags env))
   \<and> precedes RestoreTrades Subscribe (snd (ServerMain join flags env))
   \<and> precedes RestoreTrades (Go UserDataStreamRun) (snd (ServerMain join flags env))
   \<and> precedes RestoreTrades (Go EventDispatch) (snd (ServerMain join flags env))
   \<and> distinct (snd (ServerMain join flags env))
   \<and> (\<not> startupAborts flags env \<longrightarrow>
        RestoreTrades \<in> set (snd (ServerMain join flags env))
        \<and> Subscribe \<in> set (snd (ServerMain join flags env))
        \<and> Go UserDataStreamRun \<in> set (snd (ServerMain join flags env))
        \<and> Go EventDispatch \<in> set (snd (ServerMain join flags env)))"
proof (cases "startupAborts flags env")
  case True
  from aborted_trace[OF True, of join] show ?thesis
    by (simp add: precedes_def True)
next
  case False
  from running_order[OF False, of join] running_distinct[OF False, of join]
    running_reaches[OF False, of join]
  show ?thesis by simp
qed

theorem recovery_precedes_user_data_stream_witness:
  "\<not> startupAborts localFlags readyEnvironment
   \<and> Subscribe \<in> set (snd (ServerMain slashJoin localFlags readyEnvironment))
   \<and> RestoreTrades
       \<in> set (takeWhile (\<lambda>x. x \<noteq> Subscribe)
                (snd (ServerMain slashJoin localFlags readyEnvironment)))
   \<and> Go EventDispatch \<in> set (snd (ServerMain slashJoin localFlags readyEnvironment))
   \<and> RestoreTrades
       \<in> set (takeWhile (\<lambda>x. x \<noteq> Go EventDispatch)
                (snd (ServerMain slashJoin localFlags readyEnvironment)))
   \<and> RestoreTrades \<in> set (snd (ServerMain slashJoin localFlags readyEnvironment))
   \<and> NewTradeService
       \<in> set (takeWhile (\<lambda>x. x \<noteq> RestoreTrades)
                (snd (ServerMain slashJoin localFlags readyEnvironment)))"
proof -
  have a: "\<not> startupAborts localFlags readyEnvironment"
    by (simp add: startupAborts_def localFlags_def readyEnvironment_def listenGuard_def)
  from recovery_precedes_user_data_stream [of localFlags slashJoin readyEnvironment] a
  show ?thesis by (simp add: precedes_def)
qed

text \<open>
  Claim C9. The guard on the listen address: when \<^verbatim>\<open>ServerFlags.Host\<close> is not
  \<^verbatim>\<open>127.0.0.1\<close> and one of \<^verbatim>\<open>EnableAuth\<close>, \<^verbatim>\<open>TLS\<close>, \<^verbatim>\<open>ItsAllMyFault\<close> is false,
  \<^verbatim>\<open>ServerMain\<close> ends with a fatal log call, and has neither opened the database nor
  created a service. When the host is \<^verbatim>\<open>127.0.0.1\<close> the guard passes whatever the three
  flags are: unless the data directory is missing and cannot be made, the start makes no
  fatal call and opens the database.
\<close>

theorem listen_guard_stops_unsafe_hosts:
  "(Host flags \<noteq> ''127.0.0.1'' \<and> (\<not> EnableAuth flags \<or> \<not> TLS flags \<or> \<not> ItsAllMyFault flags)
      \<longrightarrow> (\<exists>msg. last (snd (ServerMain join flags env)) = Fatalf msg)
          \<and> filter isDbOpen (snd (ServerMain join flags env)) = []
          \<and> filter isServiceCreation (snd (ServerMain join flags env)) = [])
   \<and> (Host flags = ''127.0.0.1''
      \<longrightarrow> listenGuard flags = None
          \<and> (DataDirectoryExists env \<or> MkdirError env = None
              \<longrightarrow> filter isFatalf (snd (ServerMain join flags env)) = []
                  \<and> DbOpen (DataDirectory flags) \<in> set (snd (ServerMain join flags env))))"
proof (intro conjI impI)
  assume "Host flags \<noteq> ''127.0.0.1''
    \<and> (\<not> EnableAuth flags \<or> \<not> TLS flags \<or> \<not> ItsAllMyFault flags)"
  then have "listenGuard flags \<noteq> None" using listenGuard_refuses[of flags] by blast
  then have ab: "startupAborts flags env" by (simp add: startupAborts_def)
  from aborted_trace(1)[OF ab]
  show "\<exists>msg. last (snd (ServerMain join flags env)) = Fatalf msg" .
  from aborted_trace(2)[OF ab]
  show "filter isDbOpen (snd (ServerMain join flags env)) = []" .
  from aborted_trace(3)[OF ab]
  show "filter isServiceCreation (snd (ServerMain join flags env)) = []" .
next
  assume "Host flags = ''127.0.0.1''"
  then show "listenGuard flags = None" by (simp add: listenGuard_def)
next
  assume h: "Host flags = ''127.0.0.1''"
    and d: "DataDirectoryExists env \<or> MkdirError env = None"
  from h have "listenGuard flags = None" by (simp add: listenGuard_def)
  with d have r: "\<not> startupAborts flags env" by (auto simp: startupAborts_def)
  from running_reaches(1)[OF r]
  show "filter isFatalf (snd (ServerMain join flags env)) = []" .
  from running_reaches(2)[OF r]
  show "DbOpen (DataDirectory flags) \<in> set (snd (ServerMain join flags env))" .
qed

theorem listen_guard_stops_unsafe_hosts_witness:
  "Host publicFlags \<noteq> ''127.0.0.1'' \<and> \<not> ItsAllMyFault publicFlags
   \<and> snd (ServerMain slashJoin publicFlags readyEnvironment) =
       [LogInfof ''This is Maker version %s (git revision %s)'', LogSetLevelDebug,
        OsStat ''/home/maker/.makerdata'',
        LogAddFileOutputHook ''/home/maker/.makerdata/maker.log'',
        Fatalf ''Secret command line argument for non 127.0.0.1 listen not set. See documentation.'']
   \<and> filter isDbOpen (snd (ServerMain slashJoin publicFlags readyEnvironment)) = []
   \<and> filter isServiceCreation (snd (ServerMain slashJoin publicFlags readyEnvironment)) = []
   \<and> Host localFlags = ''127.0.0.1''
   \<and> \<not> EnableAuth localFlags \<and> \<not> TLS localFlags \<and> \<not> ItsAllMyFault localFlags
   \<and> DataDirectoryExists readyEnvironment
   \<and> listenGuard localFlags = None
   \<and> filter isFatalf (snd (ServerMain slashJoin localFlags readyEnvironment)) = []
   \<and> DbOpen ''/home/maker/.makerdata''
       \<in> set (snd (ServerMain slashJoin localFlags readyEnvironment))"
proof -
  have p: "Host publicFlags \<noteq> ''127.0.0.1''" "\<not> ItsAllMyFault publicFlags"
    by (simp_all add: publicFlags_def)
  have t: "snd (ServerMain slashJoin publicFlags readyEnvironment) =
       [LogInfof ''This is Maker version %s (git revision %s)'', LogSetLevelDebug,
        OsStat ''/home/maker/.makerdata'',
        LogAddFileOutputHook ''/home/maker/.makerdata/maker.log'',
        Fatalf ''Secret command line argument for non 127.0.0.1 listen not set. See documentation.'']"
    by (simp add: ServerMain_def publicFlags_def readyEnvironment_def listenGuard_def
        slashJoin_def Let_def)
  have l: "Host localFlags = ''127.0.0.1''" "\<not> EnableAuth localFlags" "\<not> TLS localFlags"
    "\<not> ItsAllMyFault localFlags" "DataDirectory localFlags = ''/home/maker/.makerdata''"
    by (simp_all add: localFlags_def)
  have e: "DataDirectoryExists readyEnvironment"
    by (simp add: readyEnvironment_def)
  from listen_guard_stops_unsafe_hosts [of publicFlags slashJoin readyEnvironment] p
  have "filter isDbOpen (snd (ServerMain slashJoin publicFlags readyEnvironment)) = []
    \<and> filter isServiceCreation (snd (ServerMain slashJoin publicFlags readyEnvironment)) = []"
    by blast
  moreover from listen_guard_stops_unsafe_hosts [of localFlags slashJoin readyEnvironment] l e
  have "listenGuard localFlags = None
    \<and> filter isFatalf (snd (ServerMain slashJoin localFlags readyEnvironment)) = []
    \<and> DbOpen ''/home/maker/.makerdata''
        \<in> set (snd (ServerMain slashJoin localFlags readyEnvironment))"
    by simp
  ultimately show ?thesis using p t l e by simp
qed

end
